theory Spec2Isabelle
  imports Main "HOL-Library.Word" "HOL-Library.List_Lexorder" "HOL-Library.Sublist"
begin

section \<open>JavaScript strings\<close>

text \<open>
  A JavaScript string is a sequence of UTF-16 code units, and \<open>.length\<close> counts code
  units. The literals of \<open>index.ts\<close> that are not ASCII are written out in code units
  (an emoji outside the basic plane is a surrogate pair, of length 2).
\<close>

type_synonym jsstring = "16 word list"

text \<open>An ASCII character as a code unit, and an ASCII literal as a string.\<close>

definition code_unit :: "char \<Rightarrow> 16 word" where
  "code_unit c = of_nat (of_char c)"

definition ascii :: "string \<Rightarrow> jsstring" where
  "ascii s = map code_unit s"

text \<open>\<open>String.prototype.includes\<close>: the needle occurs as a contiguous run.\<close>

fun starts_with :: "'a list \<Rightarrow> 'a list \<Rightarrow> bool" where
  "starts_with [] ys = True"
| "starts_with (x # xs) [] = False"
| "starts_with (x # xs) (y # ys) = (x = y \<and> starts_with xs ys)"

fun includes_js :: "'a list \<Rightarrow> 'a list \<Rightarrow> bool" where
  "includes_js [] needle = (needle = [])"
| "includes_js (c # cs) needle = (starts_with needle (c # cs) \<or> includes_js cs needle)"

text \<open>
  White space as \<open>String.prototype.trim\<close> and the white-space class of a regular
  expression see it: the WhiteSpace and LineTerminator code units of ECMAScript.
\<close>

definition is_space :: "16 word \<Rightarrow> bool" where
  "is_space c \<longleftrightarrow>
     c \<in> set [0x09, 0x0A, 0x0B, 0x0C, 0x0D, 0x20, 0xA0, 0x1680,
               0x2000, 0x2001, 0x2002, 0x2003, 0x2004, 0x2005, 0x2006, 0x2007,
               0x2008, 0x2009, 0x200A, 0x2028, 0x2029, 0x202F, 0x205F, 0x3000, 0xFEFF]"

definition trim :: "jsstring \<Rightarrow> jsstring" where
  "trim s = rev (dropWhile is_space (rev (dropWhile is_space s)))"

text \<open>
  String concatenation and template literals turn \<open>undefined\<close> into the nine letters
  \<open>undefined\<close>; \<open>None\<close> stands for \<open>undefined\<close>.
\<close>

definition str_of :: "jsstring option \<Rightarrow> jsstring" where
  "str_of v = (case v of None \<Rightarrow> ascii ''undefined'' | Some s \<Rightarrow> s)"

text \<open>\<open>xs[i]\<close> of a JavaScript array: \<open>undefined\<close> out of range.\<close>

definition at_index :: "'a list \<Rightarrow> nat \<Rightarrow> 'a option" where
  "at_index xs i = (if i < length xs then Some (xs ! i) else None)"

text \<open>\<open>Array.prototype.join\<close>.\<close>

fun join :: "jsstring \<Rightarrow> jsstring list \<Rightarrow> jsstring" where
  "join sep [] = []"
| "join sep [x] = x"
| "join sep (x # y # ys) = x @ sep @ join sep (y # ys)"


section \<open>Data model of \<open>index.ts\<close>\<close>

definition DEFAULT_LEGI_URL :: jsstring where
  "DEFAULT_LEGI_URL = ascii ''https://www.legifrance.gouv.fr/''"

definition EMBED_COLOR :: nat where
  "EMBED_COLOR = 0xED938E"

definition MAX_DESC_LENGTH :: nat where
  "MAX_DESC_LENGTH = 4000"

record Article =
  articleNumbers :: "jsstring list"
  articleUrls :: "jsstring list"
  sectionName :: jsstring
  sectionUrl :: jsstring

record ModificationItem =
  title :: jsstring
  url :: jsstring
  action :: jsstring
  articles :: "Article list"

record ParsedData =
  date :: jsstring
  dateUrl :: jsstring
  modifications :: "ModificationItem list"


section \<open>\<open>formatEmbeds\<close>\<close>

text \<open>
  An \<open>EmbedBuilder\<close> is the record of the fields the code sets; a field not yet set is
  \<open>None\<close>. \<open>setTimestamp()\<close> stamps the wall clock and is left out. The setters of
  discord.js check their argument and throw when they reject it: \<open>setTitle\<close> takes 1 to
  256 code units, \<open>setDescription\<close> 1 to 4096, \<open>setURL\<close> a URL that the library accepts
  (its test is a parameter, \<open>validURL\<close>); \<open>setColor\<close> takes the constant \<open>EMBED_COLOR\<close>,
  which is in range. A throw is an \<open>error\<close>, and it ends \<open>formatEmbeds\<close>.
\<close>

datatype error = TitleError | UrlError | DescriptionError

record Embed =
  embed_title :: jsstring
  embed_url :: jsstring
  embed_color :: nat
  description :: "jsstring option"

definition setDescription :: "Embed \<Rightarrow> jsstring \<Rightarrow> error + Embed" where
  "setDescription e d =
     (if length d < 1 \<or> 4096 < length d then Inl DescriptionError
      else Inr (e\<lparr>description := Some d\<rparr>))"

text \<open>\<open>new EmbedBuilder().setTitle(t).setURL(u).setColor(EMBED_COLOR).setTimestamp()\<close>.\<close>

definition newEmbed :: "(jsstring \<Rightarrow> bool) \<Rightarrow> jsstring \<Rightarrow> jsstring \<Rightarrow> error + Embed" where
  "newEmbed validURL t u =
     (if length t < 1 \<or> 256 < length t then Inl TitleError
      else if \<not> validURL u then Inl UrlError
      else Inr \<lparr>embed_title = t, embed_url = u, embed_color = EMBED_COLOR,
                description = None\<rparr>)"

text \<open>The calendar emoji U+1F4C5 and a space.\<close>

definition calendar_prefix :: jsstring where
  "calendar_prefix = [0xD83D, 0xDCC5, 0x20]"

definition firstEmbed :: "(jsstring \<Rightarrow> bool) \<Rightarrow> ParsedData \<Rightarrow> error + Embed" where
  "firstEmbed validURL data = newEmbed validURL (calendar_prefix @ date data) (dateUrl data)"

definition suiteEmbed :: "(jsstring \<Rightarrow> bool) \<Rightarrow> ParsedData \<Rightarrow> error + Embed" where
  "suiteEmbed validURL data =
     newEmbed validURL (calendar_prefix @ date data @ ascii '' (suite)'') (dateUrl data)"

text \<open>
  \<open>actionEmoji\<close>: memo U+1F4DD for "modifie", sparkles U+2728 for "cree", cross mark
  U+274C for "abroge", page U+1F4C4 otherwise; each final e is e acute, the code unit 0xE9.
\<close>

definition actionEmoji :: "jsstring \<Rightarrow> jsstring" where
  "actionEmoji act =
     (if includes_js act (ascii ''modifi'' @ [0xE9]) then [0xD83D, 0xDCDD]
      else if includes_js act (ascii ''cr'' @ [0xE9, 0xE9]) then [0x2728]
      else if includes_js act (ascii ''abrog'' @ [0xE9]) then [0x274C]
      else [0xD83D, 0xDCC4])"

definition articlesLinks :: "Article \<Rightarrow> jsstring" where
  "articlesLinks g =
     join (ascii '', '')
       (map (\<lambda>(num, idx). ascii ''['' @ num @ ascii ''](''
                            @ str_of (at_index (articleUrls g) idx) @ ascii '')'')
            (zip (articleNumbers g) [0 ..< length (articleNumbers g)]))"

text \<open>One line per article group; the bullet is U+2022.\<close>

definition renderGroup :: "Article \<Rightarrow> jsstring" where
  "renderGroup g =
     [0x2022] @ ascii '' Article '' @ articlesLinks g
     @ (if sectionName g \<noteq> []
        then ascii '' - ['' @ sectionName g @ ascii ''](''  @ sectionUrl g @ ascii '')''
        else [])
     @ [0x0A]"

text \<open>\<open>modifContent\<close>, the rendered block of one modification.\<close>

definition modifContent :: "ModificationItem \<Rightarrow> jsstring" where
  "modifContent m =
     [0x0A] @ ascii ''### '' @ actionEmoji (action m) @ ascii '' ['' @ title m @ ascii ''](''
     @ url m @ ascii '')''
     @ [0x0A] @ ascii ''*'' @ action m @ ascii ''*'' @ [0x0A]
     @ concat (map renderGroup (articles m))"

text \<open>
  The loop over \<open>data.modifications\<close>, with its three variables: the embeds pushed so
  far, the embed in progress and \<open>currentDescription\<close>. The bound is a parameter;
  the code fixes it to \<open>MAX_DESC_LENGTH\<close>. Sealing a chunk calls \<open>setDescription\<close> and
  then builds the next embed; either may throw.
\<close>

fun formatLoop ::
  "(jsstring \<Rightarrow> bool) \<Rightarrow> nat \<Rightarrow> ParsedData \<Rightarrow> ModificationItem list \<Rightarrow> Embed list \<Rightarrow> Embed
     \<Rightarrow> jsstring \<Rightarrow> error + (Embed list \<times> Embed \<times> jsstring)" where
  "formatLoop validURL lim data [] embeds currentEmbed currentDescription =
     Inr (embeds, currentEmbed, currentDescription)"
| "formatLoop validURL lim data (modif # rest) embeds currentEmbed currentDescription =
     (if length (currentDescription @ modifContent modif) > lim
      then (case setDescription currentEmbed currentDescription of
              Inl err \<Rightarrow> Inl err
            | Inr sealed \<Rightarrow>
                (case suiteEmbed validURL data of
                   Inl err \<Rightarrow> Inl err
                 | Inr nextEmbed \<Rightarrow>
                     formatLoop validURL lim data rest (embeds @ [sealed]) nextEmbed
                       (modifContent modif)))
      else formatLoop validURL lim data rest embeds currentEmbed
             (currentDescription @ modifContent modif))"

definition formatEmbedsWith ::
  "(jsstring \<Rightarrow> bool) \<Rightarrow> nat \<Rightarrow> ParsedData \<Rightarrow> error + Embed list" where
  "formatEmbedsWith validURL lim data =
     (case firstEmbed validURL data of
        Inl err \<Rightarrow> Inl err
      | Inr currentEmbed0 \<Rightarrow>
          (case formatLoop validURL lim data (modifications data) [] currentEmbed0 [] of
             Inl err \<Rightarrow> Inl err
           | Inr (embeds, currentEmbed, currentDescription) \<Rightarrow>
               if length currentDescription > 0
               then (case setDescription currentEmbed currentDescription of
                       Inl err \<Rightarrow> Inl err
                     | Inr lastEmbed \<Rightarrow> Inr (embeds @ [lastEmbed]))
               else Inr embeds))"

definition formatEmbeds :: "(jsstring \<Rightarrow> bool) \<Rightarrow> ParsedData \<Rightarrow> error + Embed list" where
  "formatEmbeds validURL data = formatEmbedsWith validURL MAX_DESC_LENGTH data"


text \<open>The body of a chunk: the description of a pushed embed.\<close>

definition body :: "Embed \<Rightarrow> jsstring" where
  "body e = (case description e of None \<Rightarrow> [] | Some d \<Rightarrow> d)"


section \<open>The document tree and the queries of cheerio\<close>

text \<open>
  \<open>cheerio.load(rawHTML)\<close> parses the markup into a tree; the model starts from that
  tree. \<open>Comment\<close> stands for every node that is neither an element nor text (comments,
  doctype): no selector matches it and \<open>text()\<close> skips it. Tag and attribute names are
  lower case, as the HTML parser leaves them; of a repeated attribute the first counts.
\<close>

datatype node =
    Element (tagName: jsstring) (attribs: "(jsstring \<times> jsstring) list") (childNodes: "node list")
  | Text jsstring
  | Comment jsstring

type_synonym document = "node list"

text \<open>
  An element of a selection is a place in the document: the path of child indices from
  the root, the ancestors (nearest first) and the node itself. An ancestor is kept as
  its tag and attributes, without its children: no selector of the code looks at them.
\<close>

record elem =
  path :: "nat list"
  ancestors :: "node list"
  node :: node

fun elems_from :: "nat list \<Rightarrow> node list \<Rightarrow> nat \<Rightarrow> node list \<Rightarrow> elem list" where
  "elems_from p anc i [] = []"
| "elems_from p anc i (Element t a cs # ns) =
     \<lparr>path = p @ [i], ancestors = anc, node = Element t a cs\<rparr>
       # elems_from (p @ [i]) (Element t a [] # anc) 0 cs
       @ elems_from p anc (Suc i) ns"
| "elems_from p anc i (Text s # ns) = elems_from p anc (Suc i) ns"
| "elems_from p anc i (Comment s # ns) = elems_from p anc (Suc i) ns"

text \<open>All elements of the document, in document order.\<close>

definition all_elems :: "document \<Rightarrow> elem list" where
  "all_elems doc = elems_from [] [] 0 doc"

fun getAttr :: "node \<Rightarrow> jsstring \<Rightarrow> jsstring option" where
  "getAttr (Element t a cs) name = map_of a name"
| "getAttr (Text s) name = None"
| "getAttr (Comment s) name = None"

text \<open>The names in a \<open>class\<close> attribute: its runs of non-space code units.\<close>

fun class_names :: "jsstring \<Rightarrow> jsstring \<Rightarrow> jsstring list" where
  "class_names [] cur = (if cur = [] then [] else [cur])"
| "class_names (c # cs) cur =
     (if is_space c then (if cur = [] then class_names cs [] else cur # class_names cs [])
      else class_names cs (cur @ [c]))"

definition hasClass :: "node \<Rightarrow> jsstring \<Rightarrow> bool" where
  "hasClass n c = (case getAttr n (ascii ''class'') of
                     None \<Rightarrow> False | Some v \<Rightarrow> c \<in> set (class_names v []))"

text \<open>
  The selectors of \<open>index.ts\<close> are compound selectors (a tag, classes, an id, attribute
  tests) joined by the descendant combinator; the last compound is the subject.
\<close>

datatype simple =
    Tag jsstring
  | Class jsstring
  | Id jsstring
  | AttrEq jsstring jsstring
  | AttrContains jsstring jsstring

type_synonym compound = "simple list"
type_synonym selector = "compound list"

fun matches_simple :: "simple \<Rightarrow> node \<Rightarrow> bool" where
  "matches_simple (Tag t) n = (case n of Element t' a cs \<Rightarrow> t' = t | _ \<Rightarrow> False)"
| "matches_simple (Class c) n = hasClass n c"
| "matches_simple (Id i) n = (getAttr n (ascii ''id'') = Some i)"
| "matches_simple (AttrEq a v) n = (getAttr n a = Some v)"
| "matches_simple (AttrContains a v) n =
     (case getAttr n a of None \<Rightarrow> False | Some s \<Rightarrow> v \<noteq> [] \<and> includes_js s v)"

definition matches_compound :: "compound \<Rightarrow> node \<Rightarrow> bool" where
  "matches_compound c n = list_all (\<lambda>s. matches_simple s n) c"

text \<open>
  The compounds before the subject, nearest first, are each matched by an ancestor, in
  order going up.
\<close>

fun matches_chain :: "compound list \<Rightarrow> node list \<Rightarrow> bool" where
  "matches_chain [] anc = True"
| "matches_chain (c # cs) [] = False"
| "matches_chain (c # cs) (a # anc) =
     ((matches_compound c a \<and> matches_chain cs anc) \<or> matches_chain (c # cs) anc)"

definition matches_sel :: "selector \<Rightarrow> node list \<Rightarrow> node \<Rightarrow> bool" where
  "matches_sel sel anc n =
     (case rev sel of [] \<Rightarrow> False
      | subject # outer \<Rightarrow> matches_compound subject n \<and> matches_chain outer anc)"

text \<open>\<open>$(selector)\<close>: the elements of the document that match, in document order.\<close>

definition select :: "document \<Rightarrow> selector \<Rightarrow> elem list" where
  "select doc sel = filter (\<lambda>e. matches_sel sel (ancestors e) (node e)) (all_elems doc)"

text \<open>
  \<open>selection.find(selector)\<close>: the elements strictly inside one of the selection's
  elements that match, in document order and each once; the ancestors the selector asks
  for are taken from the context element downwards.
\<close>

definition strictly_inside :: "elem \<Rightarrow> elem \<Rightarrow> bool" where
  "strictly_inside e c \<longleftrightarrow>
     length (path c) < length (path e) \<and> take (length (path c)) (path e) = path c"

definition find_sel :: "document \<Rightarrow> elem list \<Rightarrow> selector \<Rightarrow> elem list" where
  "find_sel doc ctxs sel =
     filter (\<lambda>e. list_ex (\<lambda>c. strictly_inside e c
                    \<and> matches_sel sel (take (length (path e) - length (path c)) (ancestors e))
                         (node e)) ctxs)
       (all_elems doc)"

text \<open>\<open>.first()\<close>, \<open>.text()\<close> and \<open>.attr(name)\<close> (\<open>undefined\<close> on an empty selection).\<close>

definition first :: "elem list \<Rightarrow> elem list" where
  "first es = take 1 es"

fun text_of :: "node \<Rightarrow> jsstring" where
  "text_of (Element t a cs) = concat (map text_of cs)"
| "text_of (Text s) = s"
| "text_of (Comment s) = []"

definition text_sel :: "elem list \<Rightarrow> jsstring" where
  "text_sel es = concat (map (\<lambda>e. text_of (node e)) es)"

definition attr :: "elem list \<Rightarrow> jsstring \<Rightarrow> jsstring option" where
  "attr es name = (case es of [] \<Rightarrow> None | e # _ \<Rightarrow> getAttr (node e) name)"

text \<open>
  \<open>.html()\<close>: \<open>null\<close> on an empty selection, else the serialised children of the first
  element. The serialiser belongs to the library and is a parameter.
\<close>

definition html :: "(node list \<Rightarrow> jsstring) \<Rightarrow> elem list \<Rightarrow> jsstring option" where
  "html render es = (case es of [] \<Rightarrow> None | e # _ \<Rightarrow> Some (render (childNodes (node e))))"


section \<open>\<open>parseLegiData\<close>\<close>

text \<open>
  \<open>today\<close> is \<open>new Date()\<close> in \<open>index.ts\<close> and \<open>new Date('2026-01-07')\<close> in the other
  variant: a parameter here, given by what \<open>getDate()\<close>, \<open>getMonth()\<close> (from 0) and
  \<open>getFullYear()\<close> return.
\<close>

record jsdate =
  getDate :: nat
  getMonth :: nat
  getFullYear :: nat

function toString :: "nat \<Rightarrow> jsstring" where
  "toString n = (if n < 10 then [of_nat (48 + n)]
                 else toString (n div 10) @ [of_nat (48 + n mod 10)])"
  by pat_completeness auto
termination
  by (relation "measure id") auto

declare toString.simps [simp del]

definition padStart2 :: "jsstring \<Rightarrow> jsstring" where
  "padStart2 s = replicate (2 - length s) 0x30 @ s"

definition todayFormatted :: "jsdate \<Rightarrow> jsstring" where
  "todayFormatted today =
     padStart2 (toString (getDate today)) @ ascii ''/''
     @ padStart2 (toString (getMonth today + 1)) @ ascii ''/''
     @ toString (getFullYear today)"

text \<open>The selectors, with the source text of each.\<close>

definition marker_sel :: "jsstring \<Rightarrow> selector" where
  \<comment> \<open>\<open>.version-item a[data-date='${todayFormatted}']\<close>\<close>
  "marker_sel d = [[Class (ascii ''version-item'')], [Tag (ascii ''a''), AttrEq (ascii ''data-date'') d]]"

definition container_sel :: selector where
  \<comment> \<open>\<open>.version-item.current-version\<close>\<close>
  "container_sel = [[Class (ascii ''version-item''), Class (ascii ''current-version'')]]"

definition date_link_sel :: selector where
  \<comment> \<open>\<open>.detail-timeline-title a\<close>\<close>
  "date_link_sel = [[Class (ascii ''detail-timeline-title'')], [Tag (ascii ''a'')]]"

definition block_sel :: selector where
  \<comment> \<open>\<open>.content-detail-timeline\<close>\<close>
  "block_sel = [[Class (ascii ''content-detail-timeline'')]]"

definition title_sel :: selector where
  \<comment> \<open>\<open>h4.txt-title a\<close>\<close>
  "title_sel = [[Tag (ascii ''h4''), Class (ascii ''txt-title'')], [Tag (ascii ''a'')]]"

definition state_sel :: selector where
  \<comment> \<open>\<open>.tag-state-small\<close>\<close>
  "state_sel = [[Class (ascii ''tag-state-small'')]]"

definition item_sel :: selector where
  \<comment> \<open>\<open>.list-item\<close>\<close>
  "item_sel = [[Class (ascii ''list-item'')]]"

definition article_sel :: selector where
  \<comment> \<open>\<open>.list-arcticle-chrono li a\<close>\<close>
  "article_sel = [[Class (ascii ''list-arcticle-chrono'')], [Tag (ascii ''li'')], [Tag (ascii ''a'')]]"

definition section_sel :: selector where
  \<comment> \<open>\<open>a[href*='section_lc']\<close>\<close>
  "section_sel = [[Tag (ascii ''a''), AttrContains (ascii ''href'') (ascii ''section_lc'')]]"

definition href :: jsstring where
  "href = ascii ''href''"

text \<open>
  The callback of \<open>$item.find(".list-arcticle-chrono li a").each\<close>: one push on each of
  the two arrays.
\<close>

definition eachArticle ::
  "jsstring list \<times> jsstring list \<Rightarrow> elem \<Rightarrow> jsstring list \<times> jsstring list" where
  "eachArticle acc artEl =
     (case acc of (numbers, urls) \<Rightarrow>
        (numbers @ [trim (text_sel [artEl])],
         urls @ [DEFAULT_LEGI_URL @ str_of (attr [artEl] href)]))"

text \<open>
  The callback of \<open>$modif.find(".list-item").each\<close> pushes one object, \<open>itemArticle\<close>.
\<close>

definition itemArticle :: "document \<Rightarrow> elem \<Rightarrow> Article" where
  "itemArticle doc itemEl =
     (case foldl eachArticle ([], []) (find_sel doc [itemEl] article_sel) of
        (numbers, urls) \<Rightarrow>
          let sectionLink = find_sel doc [itemEl] section_sel;
              sectionName = trim (text_sel sectionLink);
              sectionUrl = DEFAULT_LEGI_URL @ str_of (attr sectionLink href)
          in \<lparr>articleNumbers = numbers, articleUrls = urls,
              sectionName = sectionName, sectionUrl = sectionUrl\<rparr>)"

definition eachItem :: "document \<Rightarrow> Article list \<Rightarrow> elem \<Rightarrow> Article list" where
  "eachItem doc pushed itemEl = pushed @ [itemArticle doc itemEl]"

text \<open>
  The callback of \<open>container.find(".content-detail-timeline").each\<close>: its early
  \<open>return\<close> leaves \<open>modifications\<close> (here \<open>pushed\<close>) as it is, otherwise it pushes one
  object, \<open>blockModification\<close>.
\<close>

definition blockModification :: "document \<Rightarrow> elem \<Rightarrow> ModificationItem" where
  "blockModification doc modifEl =
     (let titleLink = find_sel doc [modifEl] title_sel;
          title = trim (text_sel titleLink);
          url = DEFAULT_LEGI_URL @ str_of (attr titleLink href);
          action = trim (text_sel (find_sel doc [modifEl] state_sel));
          articles = foldl (eachItem doc) [] (find_sel doc [modifEl] item_sel)
      in \<lparr>title = title, url = url, action = action, articles = articles\<rparr>)"

definition eachModif :: "document \<Rightarrow> ModificationItem list \<Rightarrow> elem \<Rightarrow> ModificationItem list" where
  "eachModif doc pushed modifEl =
     (if length (find_sel doc [modifEl] title_sel) = 0 then pushed
      else pushed @ [blockModification doc modifEl])"

text \<open>\<open>null\<close> is \<open>None\<close>.\<close>

definition parseLegiData :: "jsdate \<Rightarrow> document \<Rightarrow> ParsedData option" where
  "parseLegiData today doc =
     (if length (select doc (marker_sel (todayFormatted today))) = 0 then None
      else let container = first (select doc container_sel)
           in if length container = 0 then None
              else let dateLink = find_sel doc container date_link_sel;
                       date = trim (text_sel dateLink);
                       dateUrl = ascii ''https://www.legifrance.gouv.fr'' @ str_of (attr dateLink href);
                       modifications = foldl (eachModif doc) [] (find_sel doc container block_sel)
                   in Some \<lparr>date = date, dateUrl = dateUrl, modifications = modifications\<rparr>)"


section \<open>\<open>processLogUpdates\<close>\<close>

record VersionItem =
  isCurrentVersion :: bool
  dateLink :: jsstring
  savedHtml :: jsstring

record LegiLog =
  log_date :: jsstring
  versionItems :: "VersionItem list"

definition expand_sel :: selector where
  \<comment> \<open>\<open>.accordion-timeline-item[data-year='2026'] #expand_1\<close>\<close>
  "expand_sel = [[Class (ascii ''accordion-timeline-item''), AttrEq (ascii ''data-year'') (ascii ''2026'')],
                 [Id (ascii ''expand_1'')]]"

definition version_item_sel :: selector where
  \<comment> \<open>\<open>.version-item\<close>\<close>
  "version_item_sel = [[Class (ascii ''version-item'')]]"

text \<open>The version items of the document: \<open>container.find(".version-item")\<close>.\<close>

definition versionItemsOf :: "document \<Rightarrow> elem list" where
  "versionItemsOf doc = find_sel doc (select doc expand_sel) version_item_sel"

text \<open>
  The callback of \<open>versionItems.map\<close>. A string is truthy when it is not empty, and
  \<open>null\<close> is falsy.
\<close>

definition formatVersionItem :: "(node list \<Rightarrow> jsstring) \<Rightarrow> document \<Rightarrow> elem \<Rightarrow> VersionItem" where
  "formatVersionItem render doc el =
     (let dateLinkHtml = find_sel doc [el] date_link_sel
      in \<lparr>isCurrentVersion = hasClass (node el) (ascii ''current-version''),
          dateLink = (case html render dateLinkHtml of
                        None \<Rightarrow> []
                      | Some h \<Rightarrow> if h \<noteq> []
                                  then ascii ''https://www.legifrance.gouv.fr'' @ str_of (attr dateLinkHtml href)
                                  else []),
          savedHtml = (case html render [el] of None \<Rightarrow> [] | Some h \<Rightarrow> h)\<rparr>)"

text \<open>The alert text; both accented letters are the code unit 0xE9.\<close>

definition alert_content :: jsstring where
  "alert_content = ascii ''Nouvelle modification d'' @ [0xE9] @ ascii ''tect'' @ [0xE9]
                   @ ascii ''e <@410774625820082176>''"

text \<open>
  What one run does to its surroundings: the array \<open>observedLogs\<close> after it, the messages
  handed to \<open>channel.send\<close>, and the array given to \<open>saveLogs\<close> (\<open>None\<close> when it is not
  called). The fetched document and the string \<open>new Date().toISOString()\<close> read at the
  push are inputs.
\<close>

record probe =
  logs :: "LegiLog list"
  sent :: "jsstring list"
  saved :: "LegiLog list option"

definition processLogUpdates ::
  "(node list \<Rightarrow> jsstring) \<Rightarrow> jsstring \<Rightarrow> document \<Rightarrow> LegiLog list \<Rightarrow> probe" where
  "processLogUpdates render now doc observedLogs =
     (let versionItems = versionItemsOf doc
      in if length versionItems = 0
         then \<lparr>logs = observedLogs, sent = [], saved = None\<rparr>
         else let formatedVersionItems = map (formatVersionItem render doc) versionItems;
                  sent = (if length observedLogs > 0
                             \<and> length (LegiLog.versionItems (last observedLogs))
                                 < length formatedVersionItems
                          then [alert_content] else []);
                  observedLogs' = observedLogs
                     @ [\<lparr>log_date = now, versionItems = formatedVersionItems\<rparr>]
              in \<lparr>logs = observedLogs', sent = sent, saved = Some observedLogs'\<rparr>)"

text \<open>The alert is to be sent: \<open>channel.send\<close> was called.\<close>

definition notify :: "probe \<Rightarrow> bool" where
  "notify r \<longleftrightarrow> sent r \<noteq> []"

text \<open>Successive runs, each with the time string it reads and the document it fetches.\<close>

definition probes ::
  "(node list \<Rightarrow> jsstring) \<Rightarrow> (jsstring \<times> document) list \<Rightarrow> LegiLog list \<Rightarrow> LegiLog list" where
  "probes render runs observedLogs =
     foldl (\<lambda>ls (now, doc). logs (processLogUpdates render now doc ls)) observedLogs runs"


section \<open>Sample documents\<close>

text \<open>An element and a text node with ASCII names and values.\<close>

definition el :: "string \<Rightarrow> (string \<times> string) list \<Rightarrow> node list \<Rightarrow> node" where
  "el t a cs = Element (ascii t) (map (\<lambda>(k, v). (ascii k, ascii v)) a) cs"

definition tx :: "string \<Rightarrow> node" where
  "tx s = Text (ascii s)"

definition jan7 :: jsdate where
  "jan7 = \<lparr>getDate = 7, getMonth = 0, getFullYear = 2026\<rparr>"

definition jan8 :: jsdate where
  "jan8 = \<lparr>getDate = 8, getMonth = 0, getFullYear = 2026\<rparr>"

definition oct10 :: jsdate where
  "oct10 = \<lparr>getDate = 10, getMonth = 9, getFullYear = 2026\<rparr>"

definition dec31 :: jsdate where
  "dec31 = \<lparr>getDate = 31, getMonth = 11, getFullYear = 2026\<rparr>"

text \<open>
  The version of 07/01/2026 with two modification blocks: a decree with two articles in
  an article group that has no section link, and a fragment without a title link.
\<close>

definition legi_doc :: document where
  "legi_doc =
     [el ''div'' [(''class'', ''version-item current-version'')]
        [el ''h3'' [(''class'', ''detail-timeline-title'')]
           [el ''a'' [(''href'', ''/codes/v1''), (''data-date'', ''07/01/2026'')] [tx ''7 janvier 2026'']],
         el ''div'' [(''class'', ''content-detail-timeline'')]
           [el ''h4'' [(''class'', ''txt-title'')] [el ''a'' [(''href'', ''jorf/id/1'')] [tx ''Decree X'']],
            el ''span'' [(''class'', ''tag-state-small'')] [tx '' has amended ''],
            el ''div'' [(''class'', ''list-item'')]
              [el ''ul'' [(''class'', ''list-arcticle-chrono'')]
                 [el ''li'' [] [el ''a'' [(''href'', ''codes/a12'')] [tx ''12'']],
                  el ''li'' [] [el ''a'' [(''href'', ''codes/a13'')] [tx ''13'']]]]],
         el ''div'' [(''class'', ''content-detail-timeline'')]
           [el ''span'' [(''class'', ''tag-state-small'')] [tx ''has created'']]]]"

text \<open>The version of 07/01/2026 with no modification block.\<close>

definition bare_doc :: document where
  "bare_doc =
     [el ''div'' [(''class'', ''version-item current-version'')]
        [el ''h3'' [(''class'', ''detail-timeline-title'')]
           [el ''a'' [(''href'', ''/codes/v1''), (''data-date'', ''07/01/2026'')] [tx ''7 janvier 2026'']]]]"

text \<open>A version marker of 07/01/2026 in a version item that is not the current version.\<close>

definition marker_only_doc :: document where
  "marker_only_doc =
     [el ''div'' [(''class'', ''version-item'')]
        [el ''h3'' [(''class'', ''detail-timeline-title'')]
           [el ''a'' [(''href'', ''/codes/v1''), (''data-date'', ''07/01/2026'')] [tx ''7 janvier 2026'']]]]"

text \<open>
  The version of 07/01/2026 with three modification blocks: a decree, a fragment without
  a title link, and an order.
\<close>

definition three_block_doc :: document where
  "three_block_doc =
     [el ''div'' [(''class'', ''version-item current-version'')]
        [el ''h3'' [(''class'', ''detail-timeline-title'')]
           [el ''a'' [(''href'', ''/codes/v1''), (''data-date'', ''07/01/2026'')] [tx ''7 janvier 2026'']],
         el ''div'' [(''class'', ''content-detail-timeline'')]
           [el ''h4'' [(''class'', ''txt-title'')] [el ''a'' [(''href'', ''jorf/id/1'')] [tx ''Decree X'']]],
         el ''div'' [(''class'', ''content-detail-timeline'')]
           [el ''span'' [(''class'', ''tag-state-small'')] [tx ''has created'']],
         el ''div'' [(''class'', ''content-detail-timeline'')]
           [el ''h4'' [(''class'', ''txt-title'')] [el ''a'' [(''href'', ''jorf/id/2'')] [tx ''Order Y'']]]]]"

definition three_block_snapshot :: ParsedData where
  "three_block_snapshot =
     \<lparr>date = ascii ''7 janvier 2026'',
      dateUrl = ascii ''https://www.legifrance.gouv.fr/codes/v1'',
      modifications =
        [\<lparr>title = ascii ''Decree X'', url = ascii ''https://www.legifrance.gouv.fr/jorf/id/1'',
           action = [], articles = []\<rparr>,
         \<lparr>title = ascii ''Order Y'', url = ascii ''https://www.legifrance.gouv.fr/jorf/id/2'',
           action = [], articles = []\<rparr>]\<rparr>"

text \<open>Timelines: one version item under 2026, two under 2026, one under 2025 only.\<close>

definition timeline :: "string \<Rightarrow> node list \<Rightarrow> document" where
  "timeline year items =
     [el ''div'' [(''class'', ''accordion-timeline-item''), (''data-year'', year)]
        [el ''div'' [(''id'', ''expand_1'')] items]]"

definition version_item :: "string \<Rightarrow> node" where
  "version_item cls = el ''div'' [(''class'', cls)] []"

definition timeline_one :: document where
  "timeline_one = timeline ''2026'' [version_item ''version-item current-version'']"

definition timeline_two :: document where
  "timeline_two = timeline ''2026'' [version_item ''version-item current-version'',
                                      version_item ''version-item'']"

definition timeline_2025 :: document where
  "timeline_2025 = timeline ''2025'' [version_item ''version-item current-version'']"

text \<open>A serialiser for the samples: only whether the children are empty is kept.\<close>

definition render0 :: "node list \<Rightarrow> jsstring" where
  "render0 ns = (if ns = [] then [] else ascii ''...'')"

text \<open>A URL test for the samples: the string starts with \<open>https://\<close>.\<close>

definition https_url :: "jsstring \<Rightarrow> bool" where
  "https_url u = starts_with (ascii ''https://'') u"

text \<open>A snapshot whose only modification has a title of 4000 letters.\<close>

definition big_modif :: ModificationItem where
  "big_modif = \<lparr>title = replicate 4000 0x61, url = ascii ''https://www.legifrance.gouv.fr/jorf/id/X'',
                 action = ascii ''A modifi'' @ [0xE9], articles = []\<rparr>"



text \<open>The snapshot that \<open>legi_doc\<close> parses to.\<close>

definition legi_group :: Article where
  "legi_group =
     \<lparr>articleNumbers = [ascii ''12'', ascii ''13''],
      articleUrls = [ascii ''https://www.legifrance.gouv.fr/codes/a12'',
                     ascii ''https://www.legifrance.gouv.fr/codes/a13''],
      sectionName = [],
      sectionUrl = ascii ''https://www.legifrance.gouv.fr/undefined''\<rparr>"

definition legi_modif :: ModificationItem where
  "legi_modif =
     \<lparr>title = ascii ''Decree X'',
      url = ascii ''https://www.legifrance.gouv.fr/jorf/id/1'',
      action = ascii ''has amended'',
      articles = [legi_group]\<rparr>"

definition legi_snapshot :: ParsedData where
  "legi_snapshot =
     \<lparr>date = ascii ''7 janvier 2026'',
      dateUrl = ascii ''https://www.legifrance.gouv.fr/codes/v1'',
      modifications = [legi_modif]\<rparr>"

text \<open>A snapshot with the modification of \<open>legi_doc\<close> followed by the long one.\<close>

definition two_data :: ParsedData where
  "two_data = \<lparr>date = ascii ''07/01/2026'', dateUrl = ascii ''https://www.legifrance.gouv.fr/x'',
                modifications = [legi_modif, big_modif]\<rparr>"

text \<open>The two chunks that \<open>two_data\<close> is formatted to.\<close>

definition two_chunks :: "Embed list" where
  "two_chunks =
     [\<lparr>embed_title = calendar_prefix @ ascii ''07/01/2026'',
       embed_url = ascii ''https://www.legifrance.gouv.fr/x'',
       embed_color = EMBED_COLOR, description = Some (modifContent legi_modif)\<rparr>,
      \<lparr>embed_title = calendar_prefix @ ascii ''07/01/2026'' @ ascii '' (suite)'',
       embed_url = ascii ''https://www.legifrance.gouv.fr/x'',
       embed_color = EMBED_COLOR, description = Some (modifContent big_modif)\<rparr>]"

text \<open>A history whose last entry holds one version item, and three hourly runs.\<close>

definition one_item_logs :: "LegiLog list" where
  "one_item_logs =
     [\<lparr>log_date = ascii ''2026-01-07T08:00:00.000Z'',
       versionItems = [\<lparr>isCurrentVersion = True, dateLink = [], savedHtml = []\<rparr>]\<rparr>]"

definition three_runs :: "(jsstring \<times> document) list" where
  "three_runs =
     [(ascii ''2026-01-07T09:00:00.000Z'', timeline_one),
      (ascii ''2026-01-07T10:00:00.000Z'', timeline_two),
      (ascii ''2026-01-07T11:00:00.000Z'', timeline_two)]"


text \<open>Two runs that read the same time string.\<close>

definition same_time_runs :: "(jsstring \<times> document) list" where
  "same_time_runs =
     [(ascii ''2026-01-07T09:00:00.000Z'', timeline_one),
      (ascii ''2026-01-07T09:00:00.000Z'', timeline_two)]"


section \<open>Notions used in the statements\<close>

text \<open>
  The query of the code for the modification blocks: \<open>container.find\<close> from the first
  container.
\<close>

definition modification_blocks :: "document \<Rightarrow> elem list" where
  "modification_blocks doc = find_sel doc (first (select doc container_sel)) block_sel"

text \<open>
  The version markers of a date: the \<open>a\<close> elements whose \<open>data-date\<close> attribute is the date
  and that lie inside an element of class \<open>version-item\<close>. The current-version
  containers: the elements with both classes \<open>version-item\<close> and \<open>current-version\<close>.
\<close>

definition version_markers :: "document \<Rightarrow> jsstring \<Rightarrow> elem list" where
  "version_markers doc d =
     filter (\<lambda>e. (case node e of
                    Element t a cs \<Rightarrow> t = ascii ''a'' \<and> map_of a (ascii ''data-date'') = Some d
                  | _ \<Rightarrow> False)
                \<and> list_ex (\<lambda>anc. hasClass anc (ascii ''version-item'')) (ancestors e))
       (all_elems doc)"

definition current_containers :: "document \<Rightarrow> elem list" where
  "current_containers doc =
     filter (\<lambda>e. hasClass (node e) (ascii ''version-item'')
                \<and> hasClass (node e) (ascii ''current-version''))
       (all_elems doc)"

text \<open>
  Written from the spec, without the queries of the code. The modification blocks of
  the container: the elements of class \<open>content-detail-timeline\<close> strictly inside the
  first current-version container, in document order. The title links of a block: the
  \<open>a\<close> elements strictly inside it that have, from the block downwards, an ancestor \<open>h4\<close>
  of class \<open>txt-title\<close>. A block is well formed when it has a title link.
\<close>

definition has_tag :: "node \<Rightarrow> jsstring \<Rightarrow> bool" where
  "has_tag n t = (case n of Element t' a cs \<Rightarrow> t' = t | _ \<Rightarrow> False)"

definition container_blocks :: "document \<Rightarrow> elem list" where
  "container_blocks doc =
     (case current_containers doc of
        [] \<Rightarrow> []
      | c # _ \<Rightarrow> filter (\<lambda>e. strictly_inside e c
                               \<and> hasClass (node e) (ascii ''content-detail-timeline''))
                   (all_elems doc))"

definition title_links :: "document \<Rightarrow> elem \<Rightarrow> elem list" where
  "title_links doc b =
     filter (\<lambda>e. strictly_inside e b \<and> has_tag (node e) (ascii ''a'')
                \<and> list_ex (\<lambda>anc. has_tag anc (ascii ''h4'') \<and> hasClass anc (ascii ''txt-title''))
                     (take (length (path e) - length (path b)) (ancestors e)))
       (all_elems doc)"

definition has_title_link :: "document \<Rightarrow> elem \<Rightarrow> bool" where
  "has_title_link doc b \<longleftrightarrow> title_links doc b \<noteq> []"

text \<open>
  Written from the spec: a date as \<open>DD/MM/YYYY\<close>, two digits for the day, two for the
  month counted from 1, four for the year. The dates it is meant for are those of a
  calendar with a year of four digits.
\<close>

definition digit :: "nat \<Rightarrow> 16 word" where
  "digit d = of_nat (48 + d)"

definition dd_mm_yyyy :: "nat \<Rightarrow> nat \<Rightarrow> nat \<Rightarrow> jsstring" where
  "dd_mm_yyyy d m y =
     [digit (d div 10), digit (d mod 10), code_unit CHR ''/'',
      digit (m div 10), digit (m mod 10), code_unit CHR ''/'',
      digit (y div 1000), digit (y div 100 mod 10), digit (y div 10 mod 10), digit (y mod 10)]"

definition reference_date :: "jsdate \<Rightarrow> jsstring" where
  "reference_date today = dd_mm_yyyy (getDate today) (getMonth today + 1) (getFullYear today)"

definition valid_date :: "jsdate \<Rightarrow> bool" where
  "valid_date today \<longleftrightarrow>
     1 \<le> getDate today \<and> getDate today \<le> 31 \<and> getMonth today \<le> 11
     \<and> 1000 \<le> getFullYear today \<and> getFullYear today \<le> 9999"

text \<open>The entry a run appends when it finds version items.\<close>

definition entryOf :: "(node list \<Rightarrow> jsstring) \<Rightarrow> jsstring \<times> document \<Rightarrow> LegiLog" where
  "entryOf render run =
     \<lparr>log_date = fst run,
      versionItems = map (formatVersionItem render (snd run)) (versionItemsOf (snd run))\<rparr>"

text \<open>
  A chunk body is within the bound, or is the rendered block of one modification.
\<close>

definition chunk_ok :: "nat \<Rightarrow> ParsedData \<Rightarrow> jsstring \<Rightarrow> bool" where
  "chunk_ok lim data b \<longleftrightarrow>
     length b \<le> lim \<or> b \<in> set (map modifContent (modifications data))"


section \<open>Evaluating the queries on the sample documents\<close>

text \<open>
  ASCII code units are compared as characters, so that the queries on a sample document
  are computed by rewriting.
\<close>

lemma of_char_bound: "(of_char x :: nat) < 65536"
proof -
  have "(of_char x :: nat) mod 256 < 256" by (rule mod_less_divisor) simp
  then have "(of_char x :: nat) < 256" by (simp only: of_char_mod_256)
  also have "(256::nat) < 65536" by simp
  finally show ?thesis .
qed

lemma code_unit_eq_iff [simp]: "code_unit c = code_unit d \<longleftrightarrow> c = d"
proof
  assume h: "code_unit c = code_unit d"
  then have "take_bit 16 (of_char c :: nat) = take_bit 16 (of_char d :: nat)"
    by (simp add: code_unit_def word_of_nat_eq_iff)
  moreover have "take_bit 16 (of_char x :: nat) = of_char x" for x
    using of_char_bound[of x] by (simp add: take_bit_nat_eq_self)
  ultimately have "(of_char c :: nat) = of_char d" by simp
  then show "c = d" by simp
qed simp

lemma unat_code_unit: "unat (code_unit c) = of_char c"
  using of_char_bound[of c] by (simp add: code_unit_def unsigned_of_nat take_bit_nat_eq_self)

lemma code_unit_less_iff: "code_unit c < code_unit d \<longleftrightarrow> (of_char c :: nat) < of_char d"
  by (simp add: word_less_nat_alt unat_code_unit)

lemma is_space_code_unit:
  "is_space (code_unit c) \<longleftrightarrow> (of_char c :: nat) \<in> {9, 10, 11, 12, 13, 32, 160}"
proof -
  have lt: "(of_char c :: nat) < 256"
  proof -
    have "(of_char c :: nat) mod 256 < 256" by (rule mod_less_divisor) simp
    then show ?thesis by (simp only: of_char_mod_256)
  qed
  have "is_space w \<longleftrightarrow> unat w \<in> {9, 10, 11, 12, 13, 32, 160}" if "unat w < 256" for w :: "16 word"
    using that by (auto simp: is_space_def word_unat_eq_iff)
  from this[of "code_unit c"] lt show ?thesis by (simp add: unat_code_unit)
qed

lemma ascii_simps [simp]: "ascii [] = []" "ascii (c # cs) = code_unit c # ascii cs"
  by (simp_all add: ascii_def)

lemmas doc_defs = el_def tx_def timeline_def version_item_def all_elems_def

lemmas sel_defs = marker_sel_def container_sel_def date_link_sel_def block_sel_def title_sel_def
  state_sel_def item_sel_def article_sel_def section_sel_def expand_sel_def version_item_sel_def

lemmas engine_defs = select_def find_sel_def matches_sel_def matches_compound_def
  hasClass_def strictly_inside_def first_def text_sel_def attr_def href_def is_space_code_unit

lemmas parse_defs = parseLegiData_def eachModif_def blockModification_def eachItem_def
  itemArticle_def eachArticle_def trim_def str_of_def DEFAULT_LEGI_URL_def

lemma todayFormatted_jan7: "todayFormatted jan7 = ascii ''07/01/2026''"
  by (simp add: todayFormatted_def jan7_def toString.simps padStart2_def code_unit_def)

lemma timeline_eval:
  "length (versionItemsOf timeline_one) = 1"
  "length (versionItemsOf timeline_two) = 2"
  "length (versionItemsOf timeline_2025) = 0"
  "select timeline_one (marker_sel (todayFormatted jan7)) = []"
  by (simp_all add: versionItemsOf_def todayFormatted_jan7 timeline_one_def timeline_two_def
        timeline_2025_def doc_defs sel_defs engine_defs)


section \<open>The formatter\<close>

lemma modifContent_nonempty: "modifContent m \<noteq> []"
  by (simp add: modifContent_def)


lemma setDescription_Inr:
  "setDescription e d = Inr e' \<longleftrightarrow> d \<noteq> [] \<and> length d \<le> 4096 \<and> e' = e\<lparr>description := Some d\<rparr>"
  by (cases d) (auto simp: setDescription_def)


text \<open>One step of the loop that returns, in its two cases.\<close>

lemma formatLoop_step:
  assumes "formatLoop v lim data (m # ms) embeds cur desc = Inr r"
  shows "(lim < length (desc @ modifContent m) \<and> desc \<noteq> [] \<and> length desc \<le> 4096
            \<and> (\<exists>next. suiteEmbed v data = Inr next
                  \<and> formatLoop v lim data ms (embeds @ [cur\<lparr>description := Some desc\<rparr>]) next
                       (modifContent m) = Inr r))
         \<or> (\<not> lim < length (desc @ modifContent m)
            \<and> formatLoop v lim data ms embeds cur (desc @ modifContent m) = Inr r)"
proof (cases "lim < length (desc @ modifContent m)")
  case True
  with assms obtain sealed where s: "setDescription cur desc = Inr sealed"
    by (cases "setDescription cur desc") auto
  with assms True obtain "next" where n: "suiteEmbed v data = Inr next"
    by (cases "suiteEmbed v data") auto
  from s have d: "desc \<noteq> []" "length desc \<le> 4096" "sealed = cur\<lparr>description := Some desc\<rparr>"
    by (simp_all add: setDescription_Inr)
  from assms True s n have "formatLoop v lim data ms (embeds @ [sealed]) next (modifContent m) = Inr r"
    by simp
  with True d n show ?thesis by auto
next
  case False
  with assms show ?thesis by simp
qed


text \<open>What a returning \<open>formatEmbedsWith\<close> went through.\<close>

lemma formatEmbedsWith_Inr:
  assumes "formatEmbedsWith v lim data = Inr es"
  obtains cur0 embeds' cur' desc' where
    "firstEmbed v data = Inr cur0"
    "formatLoop v lim data (modifications data) [] cur0 [] = Inr (embeds', cur', desc')"
    "desc' = [] \<Longrightarrow> es = embeds'"
    "desc' \<noteq> [] \<Longrightarrow> length desc' \<le> 4096 \<and> es = embeds' @ [cur'\<lparr>description := Some desc'\<rparr>]"
proof -
  from assms obtain cur0 where f: "firstEmbed v data = Inr cur0"
    by (cases "firstEmbed v data") (auto simp: formatEmbedsWith_def)
  with assms obtain r where l: "formatLoop v lim data (modifications data) [] cur0 [] = Inr r"
    by (cases "formatLoop v lim data (modifications data) [] cur0 []")
       (auto simp: formatEmbedsWith_def)
  obtain embeds' cur' desc' where r: "r = (embeds', cur', desc')" by (cases r)
  have a: "es = embeds'" if "desc' = []"
    using assms f l r that by (simp add: formatEmbedsWith_def)
  have b: "length desc' \<le> 4096 \<and> es = embeds' @ [cur'\<lparr>description := Some desc'\<rparr>]"
    if "desc' \<noteq> []"
  proof -
    from assms f l r that obtain lastE where s: "setDescription cur' desc' = Inr lastE"
      and e: "es = embeds' @ [lastE]"
      by (cases "setDescription cur' desc'") (auto simp: formatEmbedsWith_def)
    from s e show ?thesis by (simp add: setDescription_Inr)
  qed
  from f l[unfolded r] a b show ?thesis by (rule that)
qed



lemma formatLoop_bounded:
  "formatLoop v lim data ms embeds cur desc = Inr (embeds', cur', desc') \<Longrightarrow>
   set ms \<subseteq> set (modifications data) \<Longrightarrow>
   chunk_ok lim data desc \<Longrightarrow>
   \<forall>e \<in> set embeds. \<exists>b. description e = Some b \<and> b \<noteq> [] \<and> chunk_ok lim data b \<Longrightarrow>
   chunk_ok lim data desc'
   \<and> (\<forall>e \<in> set embeds'. \<exists>b. description e = Some b \<and> b \<noteq> [] \<and> chunk_ok lim data b)"
proof (induction ms arbitrary: embeds cur desc)
  case Nil
  then show ?case by simp
next
  case (Cons m ms)
  have ms: "set ms \<subseteq> set (modifications data)" using Cons.prems(2) by simp
  from formatLoop_step[OF Cons.prems(1)] show ?case
  proof (elim disjE conjE exE)
    fix nxt
    assume d: "desc \<noteq> []"
      and r: "formatLoop v lim data ms (embeds @ [cur\<lparr>description := Some desc\<rparr>]) nxt
                (modifContent m) = Inr (embeds', cur', desc')"
    have "chunk_ok lim data (modifContent m)"
      using Cons.prems(2) by (simp add: chunk_ok_def)
    moreover have "\<forall>e \<in> set (embeds @ [cur\<lparr>description := Some desc\<rparr>]).
                     \<exists>b. description e = Some b \<and> b \<noteq> [] \<and> chunk_ok lim data b"
      using Cons.prems(3,4) d by auto
    ultimately show ?thesis using Cons.IH[OF r ms] by blast
  next
    assume n: "\<not> lim < length (desc @ modifContent m)"
      and r: "formatLoop v lim data ms embeds cur (desc @ modifContent m) = Inr (embeds', cur', desc')"
    have "chunk_ok lim data (desc @ modifContent m)"
      using n by (simp add: chunk_ok_def)
    then show ?thesis using Cons.IH[OF r ms] Cons.prems(4) by blast
  qed
qed

lemma formatEmbeds_chunks:
  assumes "formatEmbedsWith v lim data = Inr es" and "e \<in> set es"
  shows "\<exists>b. description e = Some b \<and> b \<noteq> [] \<and> chunk_ok lim data b"
proof -
  from assms(1) obtain cur0 embeds' cur' desc' where
    l: "formatLoop v lim data (modifications data) [] cur0 [] = Inr (embeds', cur', desc')"
    and a: "desc' = [] \<Longrightarrow> es = embeds'"
    and b: "desc' \<noteq> [] \<Longrightarrow> length desc' \<le> 4096 \<and> es = embeds' @ [cur'\<lparr>description := Some desc'\<rparr>]"
    by (rule formatEmbedsWith_Inr) blast
  have "chunk_ok lim data []" by (simp add: chunk_ok_def)
  with formatLoop_bounded[OF l] have
    inv: "chunk_ok lim data desc'"
         "\<forall>e \<in> set embeds'. \<exists>b. description e = Some b \<and> b \<noteq> [] \<and> chunk_ok lim data b"
    by simp_all
  show ?thesis
  proof (cases "desc' = []")
    case True
    with a assms(2) inv(2) show ?thesis by simp
  next
    case False
    with b assms(2) inv show ?thesis by auto
  qed
qed

text \<open>
  Claim C2, as the code has it. Every chunk that \<open>formatEmbeds\<close> returns has a body, and
  the body is at most the bound long, or it is longer and is exactly the rendered block
  of one modification of the snapshot: a block is never split, so a block that alone
  exceeds the bound makes a chunk of its own that exceeds it.
\<close>

theorem formatEmbeds_chunk_bound:
  assumes "formatEmbedsWith validURL lim data = Inr es" and "e \<in> set es"
  shows "\<exists>b. description e = Some b
           \<and> (length b \<le> lim
               \<or> (lim < length b \<and> b \<in> set (map modifContent (modifications data))))"
proof -
  from formatEmbeds_chunks[OF assms] obtain b where
    b: "description e = Some b" "chunk_ok lim data b" by blast
  from b(2) have "length b \<le> lim \<or> (lim < length b \<and> b \<in> set (map modifContent (modifications data)))"
    unfolding chunk_ok_def by linarith
  with b(1) show ?thesis by blast
qed



lemma len_big_modif: "length (modifContent big_modif) = 4065"
  by (simp add: modifContent_def big_modif_def actionEmoji_def ascii_def code_unit_def)

lemma len_legi_modif: "length (modifContent legi_modif) = 180"
  by (simp add: modifContent_def legi_modif_def legi_group_def actionEmoji_def renderGroup_def
        articlesLinks_def at_index_def str_of_def upt_rec ascii_def code_unit_def)



lemma embeds_two_data:
  "firstEmbed https_url two_data
     = Inr \<lparr>embed_title = calendar_prefix @ ascii ''07/01/2026'',
            embed_url = ascii ''https://www.legifrance.gouv.fr/x'',
            embed_color = EMBED_COLOR, description = None\<rparr>"
  "suiteEmbed https_url two_data
     = Inr \<lparr>embed_title = calendar_prefix @ ascii ''07/01/2026'' @ ascii '' (suite)'',
            embed_url = ascii ''https://www.legifrance.gouv.fr/x'',
            embed_color = EMBED_COLOR, description = None\<rparr>"
  by (simp_all add: firstEmbed_def suiteEmbed_def newEmbed_def two_data_def calendar_prefix_def
        https_url_def)

lemma format_two_data: "formatEmbeds https_url two_data = Inr two_chunks"
proof -
  have m: "modifications two_data = [legi_modif, big_modif]" by (simp add: two_data_def)
  have d: "setDescription e (modifContent legi_modif) = Inr (e\<lparr>description := Some (modifContent legi_modif)\<rparr>)"
     "setDescription e (modifContent big_modif) = Inr (e\<lparr>description := Some (modifContent big_modif)\<rparr>)"
    for e
    by (simp_all add: setDescription_def len_legi_modif len_big_modif)
  show ?thesis
    unfolding formatEmbeds_def formatEmbedsWith_def m embeds_two_data two_chunks_def
    by (simp add: d len_legi_modif len_big_modif MAX_DESC_LENGTH_def embeds_two_data
          modifContent_nonempty del: ascii_simps)
qed

lemma formatLoop_returns:
  "\<forall>m \<in> set ms. length (modifContent m) \<le> lim \<Longrightarrow> length desc \<le> lim \<Longrightarrow> lim \<le> 4096 \<Longrightarrow>
   suiteEmbed v data = Inr e1 \<Longrightarrow>
   \<exists>embeds' cur' desc'. formatLoop v lim data ms embeds cur desc = Inr (embeds', cur', desc')
      \<and> length desc' \<le> lim"
proof (induction ms arbitrary: embeds cur desc)
  case Nil
  then show ?case by simp
next
  case (Cons m ms)
  have ms: "\<forall>m \<in> set ms. length (modifContent m) \<le> lim" and m: "length (modifContent m) \<le> lim"
    using Cons.prems(1) by simp_all
  show ?case
  proof (cases "lim < length (desc @ modifContent m)")
    case True
    with m have "desc \<noteq> []" by auto
    moreover have "length desc \<le> 4096" using Cons.prems(2,3) by simp
    ultimately have s: "setDescription cur desc = Inr (cur\<lparr>description := Some desc\<rparr>)"
      by (simp add: setDescription_Inr)
    from Cons.IH[OF ms m Cons.prems(3,4), of "embeds @ [cur\<lparr>description := Some desc\<rparr>]" e1]
    show ?thesis using True s Cons.prems(4) by simp
  next
    case False
    then have "length (desc @ modifContent m) \<le> lim" by simp
    from Cons.IH[OF ms this Cons.prems(3,4), of embeds cur] show ?thesis using False by simp
  qed
qed

text \<open>
  \<open>formatEmbedsWith\<close> returns when both embeds can be built, the bound is at most 4096 and
  no block is longer than the bound.
\<close>

lemma formatEmbeds_returns:
  assumes "firstEmbed v data = Inr e0" and "suiteEmbed v data = Inr e1"
      and "\<forall>m \<in> set (modifications data). length (modifContent m) \<le> lim" and "lim \<le> 4096"
  shows "\<exists>es. formatEmbedsWith v lim data = Inr es"
proof -
  from formatLoop_returns[OF assms(3) _ assms(4) assms(2), of "[]" "[]" e0]
  obtain embeds' cur' desc' where
    l: "formatLoop v lim data (modifications data) [] e0 [] = Inr (embeds', cur', desc')"
    and d: "length desc' \<le> lim" by auto
  show ?thesis
  proof (cases "desc' = []")
    case True
    with l assms(1) show ?thesis by (simp add: formatEmbedsWith_def)
  next
    case False
    with d assms(4) have "setDescription cur' desc' = Inr (cur'\<lparr>description := Some desc'\<rparr>)"
      by (simp add: setDescription_Inr)
    with l assms(1) False show ?thesis by (simp add: formatEmbedsWith_def)
  qed
qed



theorem formatEmbeds_chunk_bound_witness:
  "formatEmbedsWith https_url MAX_DESC_LENGTH two_data = Inr two_chunks
   \<and> last two_chunks \<in> set two_chunks
   \<and> length (body (hd two_chunks)) \<le> MAX_DESC_LENGTH
   \<and> (\<exists>b. description (last two_chunks) = Some b
         \<and> (length b \<le> MAX_DESC_LENGTH
             \<or> (MAX_DESC_LENGTH < length b
                 \<and> b \<in> set (map modifContent (modifications two_data)))))"
proof -
  have r: "formatEmbedsWith https_url MAX_DESC_LENGTH two_data = Inr two_chunks"
    using format_two_data by (simp only: formatEmbeds_def)
  have m: "last two_chunks \<in> set two_chunks" by (simp add: two_chunks_def)
  have l: "length (body (hd two_chunks)) \<le> MAX_DESC_LENGTH"
    by (simp add: two_chunks_def body_def len_legi_modif MAX_DESC_LENGTH_def)
  from formatEmbeds_chunk_bound[OF r m] r m l show ?thesis by blast
qed

text \<open>
  The claim as the spec states it fails: the snapshot \<open>two_data\<close> has two modifications,
  the second with a title of 4000 letters. The first chunk holds the first block, of 180
  code units; the block of the second is 4065 code units long and is the body of the
  second and last chunk.
\<close>

theorem formatEmbeds_chunk_bound_counterexample:
  "formatEmbeds https_url two_data = Inr two_chunks
   \<and> length two_chunks = 2
   \<and> length (body (hd two_chunks)) = 180
   \<and> length (body (last two_chunks)) = 4065
   \<and> MAX_DESC_LENGTH < length (body (last two_chunks))"
  by (simp add: format_two_data)
     (simp add: two_chunks_def body_def len_big_modif len_legi_modif MAX_DESC_LENGTH_def)





section \<open>The hourly probe\<close>

text \<open>
  Claim C1. \<open>processLogUpdates\<close> calls \<open>channel.send\<close> if and only if the history is not
  empty and the last entry of the history has strictly fewer version items than the
  probed document. In particular, when the last entry holds \<open>K\<close> items, a document with
  \<open>K\<close> items gives no alert, one with \<open>K + 1\<close> items gives an alert, and one with \<open>K - 1\<close>
  items gives none.
\<close>

theorem probe_notify_iff:
  "(notify (processLogUpdates render now doc observedLogs)
      \<longleftrightarrow> observedLogs \<noteq> []
          \<and> length (versionItems (last observedLogs)) < length (versionItemsOf doc))
   \<and> (observedLogs \<noteq> [] \<and> length (versionItems (last observedLogs)) = K \<longrightarrow>
        (length (versionItemsOf doc) = K
           \<longrightarrow> \<not> notify (processLogUpdates render now doc observedLogs))
      \<and> (length (versionItemsOf doc) = K + 1
           \<longrightarrow> notify (processLogUpdates render now doc observedLogs))
      \<and> (length (versionItemsOf doc) + 1 = K
           \<longrightarrow> \<not> notify (processLogUpdates render now doc observedLogs)))"
proof -
  have iff: "notify (processLogUpdates render now doc observedLogs)
      \<longleftrightarrow> observedLogs \<noteq> []
          \<and> length (versionItems (last observedLogs)) < length (versionItemsOf doc)"
  proof (cases "versionItemsOf doc = []")
    case True
    then show ?thesis by (simp add: processLogUpdates_def notify_def)
  next
    case False
    then show ?thesis by (simp add: processLogUpdates_def notify_def Let_def)
  qed
  show ?thesis unfolding iff by auto
qed

theorem probe_notify_iff_witness:
  "one_item_logs \<noteq> [] \<and> length (versionItems (last one_item_logs)) = 1
   \<and> length (versionItemsOf timeline_one) = 1
   \<and> \<not> notify (processLogUpdates render0 (ascii ''2026-01-07T09:00:00.000Z'') timeline_one one_item_logs)
   \<and> length (versionItemsOf timeline_two) = 1 + 1
   \<and> notify (processLogUpdates render0 (ascii ''2026-01-07T09:00:00.000Z'') timeline_two one_item_logs)
   \<and> length (versionItemsOf timeline_2025) + 1 = 1
   \<and> \<not> notify (processLogUpdates render0 (ascii ''2026-01-07T09:00:00.000Z'') timeline_2025 one_item_logs)"
proof -
  have l: "one_item_logs \<noteq> []" "length (versionItems (last one_item_logs)) = 1"
    by (simp_all add: one_item_logs_def)
  show ?thesis
    using probe_notify_iff[of render0 "ascii ''2026-01-07T09:00:00.000Z''" timeline_one one_item_logs 1]
      probe_notify_iff[of render0 "ascii ''2026-01-07T09:00:00.000Z''" timeline_two one_item_logs 1]
      probe_notify_iff[of render0 "ascii ''2026-01-07T09:00:00.000Z''" timeline_2025 one_item_logs 1]
    by (simp only: l timeline_eval) simp
qed


text \<open>
  Claim C8. When no version item is found under the \<open>#expand_1\<close> section of the 2026
  timeline entry, \<open>processLogUpdates\<close> returns at once: \<open>observedLogs\<close> is left as it was,
  nothing is sent and \<open>saveLogs\<close> is not called.
\<close>

theorem probe_without_items:
  assumes "length (versionItemsOf doc) = 0"
  shows "processLogUpdates render now doc observedLogs
           = \<lparr>logs = observedLogs, sent = [], saved = None\<rparr>
         \<and> logs (processLogUpdates render now doc observedLogs) = observedLogs
         \<and> \<not> notify (processLogUpdates render now doc observedLogs)"
  using assms by (simp add: processLogUpdates_def notify_def)

theorem probe_without_items_witness:
  "length (versionItemsOf timeline_2025) = 0
   \<and> processLogUpdates render0 (ascii ''2026-01-07T09:00:00.000Z'') timeline_2025 one_item_logs
       = \<lparr>logs = one_item_logs, sent = [], saved = None\<rparr>
   \<and> logs (processLogUpdates render0 (ascii ''2026-01-07T09:00:00.000Z'') timeline_2025 one_item_logs)
       = one_item_logs
   \<and> \<not> notify (processLogUpdates render0 (ascii ''2026-01-07T09:00:00.000Z'') timeline_2025 one_item_logs)"
  using probe_without_items[OF timeline_eval(3), of render0 "ascii ''2026-01-07T09:00:00.000Z''" one_item_logs]
    timeline_eval(3)
  by blast

text \<open>Runs that all find version items append their entries, one each, in order.\<close>

lemma probes_append:
  "\<forall>run \<in> set runs. versionItemsOf (snd run) \<noteq> [] \<Longrightarrow>
   probes render runs observedLogs = observedLogs @ map (entryOf render) runs"
proof (induction runs arbitrary: observedLogs)
  case Nil
  then show ?case by (simp add: probes_def)
next
  case (Cons run runs)
  obtain now doc where run: "run = (now, doc)" by (cases run)
  from Cons.prems have ne: "versionItemsOf doc \<noteq> []"
    and rest: "\<forall>r \<in> set runs. versionItemsOf (snd r) \<noteq> []"
    by (simp_all add: run)
  have step: "logs (processLogUpdates render now doc observedLogs)
              = observedLogs @ [entryOf render run]"
    using ne by (simp add: processLogUpdates_def Let_def entryOf_def run)
  have "probes render (run # runs) observedLogs
        = probes render runs (logs (processLogUpdates render now doc observedLogs))"
    by (simp add: probes_def run)
  also have "\<dots> = (observedLogs @ [entryOf render run]) @ map (entryOf render) runs"
    unfolding step by (rule Cons.IH[OF rest])
  finally show ?case by simp
qed

text \<open>
  Claim C7, as the code has it. Starting from an empty history, \<open>M\<close> runs of
  \<open>processLogUpdates\<close> that each find at least one version item append exactly one entry
  each, whether or not an alert is sent: the history has length \<open>M\<close>, and its entries
  carry, in order, the time strings that the runs read with \<open>new Date().toISOString()\<close>.
  Nothing in the code orders them: the \<open>log_date\<close> fields increase strictly exactly when
  the strings read by successive runs do.
\<close>

theorem probes_history:
  assumes "\<forall>run \<in> set runs. versionItemsOf (snd run) \<noteq> []"
  shows "probes render runs [] = map (entryOf render) runs
         \<and> length (probes render runs []) = length runs
         \<and> map log_date (probes render runs []) = map fst runs
         \<and> (sorted_wrt (<) (map log_date (probes render runs []))
              \<longleftrightarrow> sorted_wrt (<) (map fst runs))"
proof -
  have p: "probes render runs [] = map (entryOf render) runs"
    using probes_append[OF assms, of render "[]"] by simp
  have d: "map log_date (probes render runs []) = map fst runs"
    by (simp add: p entryOf_def comp_def)
  show ?thesis by (simp add: d) (simp add: p)
qed

theorem probes_history_witness:
  "versionItemsOf timeline_one \<noteq> [] \<and> versionItemsOf timeline_two \<noteq> []
   \<and> sorted_wrt (<) (map fst three_runs)
   \<and> length (probes render0 three_runs []) = 3
   \<and> map log_date (probes render0 three_runs [])
       = [ascii ''2026-01-07T09:00:00.000Z'', ascii ''2026-01-07T10:00:00.000Z'',
          ascii ''2026-01-07T11:00:00.000Z'']
   \<and> sorted_wrt (<) (map log_date (probes render0 three_runs []))"
proof -
  have ne: "versionItemsOf timeline_one \<noteq> []" "versionItemsOf timeline_two \<noteq> []"
    using timeline_eval(1,2) by auto
  then have a: "\<forall>run \<in> set three_runs. versionItemsOf (snd run) \<noteq> []"
    by (simp add: three_runs_def)
  have b: "sorted_wrt (<) (map fst three_runs)"
    by (simp add: three_runs_def code_unit_less_iff)
  have c: "length three_runs = 3"
    "map fst three_runs = [ascii ''2026-01-07T09:00:00.000Z'', ascii ''2026-01-07T10:00:00.000Z'',
          ascii ''2026-01-07T11:00:00.000Z'']"
    by (simp_all add: three_runs_def)
  from probes_history[OF a, of render0] b
  have "length (probes render0 three_runs []) = length three_runs"
    "map log_date (probes render0 three_runs []) = map fst three_runs"
    "sorted_wrt (<) (map log_date (probes render0 three_runs []))"
    by blast+
  with ne b show ?thesis by (simp only: c simp_thms)
qed

text \<open>
  The claim as the spec states it fails when two runs read the same time string, as they
  do when they push within the same millisecond or when the clock has been set back in
  between: both entries are appended and their \<open>log_date\<close> fields are equal.
\<close>

theorem probes_history_counterexample:
  "length (versionItemsOf timeline_one) = 1 \<and> length (versionItemsOf timeline_two) = 2
   \<and> length (probes render0 same_time_runs []) = 2
   \<and> map log_date (probes render0 same_time_runs [])
       = [ascii ''2026-01-07T09:00:00.000Z'', ascii ''2026-01-07T09:00:00.000Z'']
   \<and> \<not> sorted_wrt (<) (map log_date (probes render0 same_time_runs []))"
proof -
  have "\<forall>run \<in> set same_time_runs. versionItemsOf (snd run) \<noteq> []"
    using timeline_eval(1,2) by (auto simp: same_time_runs_def)
  from probes_append[OF this, of render0 "[]"]
  have "map log_date (probes render0 same_time_runs [])
        = [ascii ''2026-01-07T09:00:00.000Z'', ascii ''2026-01-07T09:00:00.000Z'']"
    by (simp add: same_time_runs_def entryOf_def del: ascii_simps)
  moreover from this have "length (probes render0 same_time_runs []) = 2"
    by (metis length_map length_Cons list.size(3) numeral_2_eq_2)
  ultimately show ?thesis using timeline_eval(1,2) by simp
qed


section \<open>The parser\<close>

text \<open>The three \<open>each\<close> loops, as maps over the elements found.\<close>

lemma foldl_eachArticle:
  "foldl eachArticle (ns, us) links
     = (ns @ map (\<lambda>a. trim (text_sel [a])) links,
        us @ map (\<lambda>a. DEFAULT_LEGI_URL @ str_of (attr [a] href)) links)"
  by (induction links arbitrary: ns us) (simp_all add: eachArticle_def)

lemma foldl_eachItem: "foldl (eachItem doc) pushed items = pushed @ map (itemArticle doc) items"
  by (induction items arbitrary: pushed) (simp_all add: eachItem_def)

text \<open>The queries of the code select what the statements speak of.\<close>

lemma matches_chain_single:
  "matches_chain [c] anc = list_ex (\<lambda>a. matches_compound c a) anc"
  by (induction anc) auto

lemma matches_chain_class:
  "matches_chain [[Class c]] anc = list_ex (\<lambda>a. hasClass a c) anc"
  by (induction anc) (auto simp: matches_compound_def)

lemma select_marker: "select doc (marker_sel d) = version_markers doc d"
  unfolding select_def version_markers_def
  by (rule filter_cong[OF refl])
     (auto simp: marker_sel_def matches_sel_def matches_chain_class matches_compound_def
           split: node.splits simp del: ascii_simps)

lemma select_container: "select doc container_sel = current_containers doc"
  by (simp add: select_def current_containers_def container_sel_def matches_sel_def
        matches_compound_def del: ascii_simps)

lemma find_title_links: "find_sel doc [b] title_sel = title_links doc b"
  unfolding find_sel_def title_links_def
  by (rule filter_cong[OF refl])
     (simp add: title_sel_def matches_sel_def matches_chain_single matches_compound_def
        has_tag_def del: ascii_simps)

lemma has_title_link_find: "has_title_link doc b \<longleftrightarrow> find_sel doc [b] title_sel \<noteq> []"
  by (simp add: has_title_link_def find_title_links)

lemma blocks_of_container: "modification_blocks doc = container_blocks doc"
proof (cases "current_containers doc")
  case Nil
  then show ?thesis
    by (simp add: modification_blocks_def container_blocks_def select_container first_def
          find_sel_def)
next
  case (Cons c cs)
  then show ?thesis
    by (simp add: modification_blocks_def container_blocks_def select_container first_def
          find_sel_def block_sel_def matches_sel_def matches_compound_def del: ascii_simps)
qed

lemma foldl_eachModif:
  "foldl (eachModif doc) pushed blocks
     = pushed @ map (blockModification doc) (filter (has_title_link doc) blocks)"
  by (induction blocks arbitrary: pushed) (simp_all add: eachModif_def has_title_link_find)

lemma parse_cases:
  "parseLegiData today doc =
     (if select doc (marker_sel (todayFormatted today)) = [] \<or> select doc container_sel = []
      then None
      else Some \<lparr>date = trim (text_sel (find_sel doc (first (select doc container_sel)) date_link_sel)),
                 dateUrl = ascii ''https://www.legifrance.gouv.fr''
                   @ str_of (attr (find_sel doc (first (select doc container_sel)) date_link_sel) href),
                 modifications = map (blockModification doc)
                   (filter (has_title_link doc) (modification_blocks doc))\<rparr>)"
  by (simp add: parseLegiData_def Let_def foldl_eachModif modification_blocks_def first_def
        del: ascii_simps)

lemma parse_modifications_eq:
  "parseLegiData today doc = Some snap \<Longrightarrow>
   modifications snap
     = map (blockModification doc) (filter (has_title_link doc) (container_blocks doc))"
  by (auto simp: parse_cases blocks_of_container split: if_splits)

lemma itemArticle_fields:
  "articleNumbers (itemArticle doc item)
     = map (\<lambda>a. trim (text_sel [a])) (find_sel doc [item] article_sel)"
  "articleUrls (itemArticle doc item)
     = map (\<lambda>a. DEFAULT_LEGI_URL @ str_of (attr [a] href)) (find_sel doc [item] article_sel)"
  "sectionName (itemArticle doc item) = trim (text_sel (find_sel doc [item] section_sel))"
  "sectionUrl (itemArticle doc item)
     = DEFAULT_LEGI_URL @ str_of (attr (find_sel doc [item] section_sel) href)"
  by (simp_all add: itemArticle_def foldl_eachArticle[of "[]" "[]", simplified] Let_def)

lemma subseq_find: "subseq (find_sel doc ctxs sel) (all_elems doc)"
  by (simp add: find_sel_def)

text \<open>The date string of the code is the date written \<open>DD/MM/YYYY\<close>.\<close>

lemma toString_digits:
  "n < 10 \<Longrightarrow> toString n = [digit n]"
  "10 \<le> n \<Longrightarrow> n < 100 \<Longrightarrow> toString n = [digit (n div 10), digit (n mod 10)]"
  "1000 \<le> n \<Longrightarrow> n \<le> 9999 \<Longrightarrow>
     toString n = [digit (n div 1000), digit (n div 100 mod 10), digit (n div 10 mod 10),
                   digit (n mod 10)]"
proof -
  show one: "toString n = [digit n]" if "n < 10" for n
    using that by (simp add: toString.simps[of n] digit_def)
  show two: "toString n = [digit (n div 10), digit (n mod 10)]" if "10 \<le> n" "n < 100" for n
  proof -
    have "n div 10 < 10" using that by simp
    from one[OF this] that show ?thesis by (simp add: toString.simps[of n] digit_def)
  qed
  have three: "toString n = [digit (n div 100), digit (n div 10 mod 10), digit (n mod 10)]"
    if "100 \<le> n" "n < 1000" for n
  proof -
    have "10 \<le> n div 10" "n div 10 < 100" using that by simp_all
    moreover have "n div 10 div 10 = n div 100" by (simp add: div_mult2_eq[symmetric])
    ultimately show ?thesis using two[of "n div 10"] that
      by (simp add: toString.simps[of n] digit_def)
  qed
  show "toString n = [digit (n div 1000), digit (n div 100 mod 10), digit (n div 10 mod 10),
                   digit (n mod 10)]" if "1000 \<le> n" "n \<le> 9999"
  proof -
    have "100 \<le> n div 10" "n div 10 < 1000" using that by simp_all
    moreover have "n div 10 div 100 = n div 1000" "n div 10 div 10 = n div 100"
      by (simp_all add: div_mult2_eq[symmetric])
    ultimately show ?thesis using three[of "n div 10"] that
      by (simp add: toString.simps[of n] digit_def)
  qed
qed

lemma pad_two_digits:
  "n < 100 \<Longrightarrow> padStart2 (toString n) = [digit (n div 10), digit (n mod 10)]"
proof (cases "n < 10")
  case True
  then show ?thesis by (simp add: toString_digits(1) padStart2_def digit_def)
next
  case False
  assume "n < 100"
  with False show ?thesis by (simp add: toString_digits(2) padStart2_def)
qed

lemma todayFormatted_reference:
  assumes "valid_date today"
  shows "todayFormatted today = reference_date today"
proof -
  from assms have "getDate today < 100" "getMonth today + 1 < 100"
    "1000 \<le> getFullYear today" "getFullYear today \<le> 9999"
    by (simp_all add: valid_date_def)
  then show ?thesis
    by (simp add: todayFormatted_def reference_date_def dd_mm_yyyy_def pad_two_digits
          toString_digits(3))
qed

text \<open>The sample dates and documents, evaluated.\<close>

lemma sample_dates:
  "valid_date jan7" "valid_date jan8" "valid_date oct10" "valid_date dec31"
  "reference_date jan7 = ascii ''07/01/2026''"
  "reference_date jan8 = ascii ''08/01/2026''"
  "reference_date oct10 = ascii ''10/10/2026''"
  "reference_date dec31 = ascii ''31/12/2026''"
  by (simp_all add: valid_date_def reference_date_def dd_mm_yyyy_def digit_def code_unit_def
        jan7_def jan8_def oct10_def dec31_def)

lemma todayFormatted_jan8: "todayFormatted jan8 = ascii ''08/01/2026''"
  by (simp only: todayFormatted_reference[OF sample_dates(2)] sample_dates(6))

lemma parse_legi_doc: "parseLegiData jan7 legi_doc = Some legi_snapshot"
  by (simp add: parse_defs todayFormatted_jan7 legi_doc_def doc_defs sel_defs engine_defs
        legi_snapshot_def legi_modif_def legi_group_def)

lemma blocks_legi_doc:
  "map path (modification_blocks legi_doc) = [[0, 1], [0, 2]]"
  "map path (filter (has_title_link legi_doc) (modification_blocks legi_doc)) = [[0, 1]]"
  by (simp_all add: modification_blocks_def has_title_link_find legi_doc_def doc_defs sel_defs
        engine_defs)

lemma legi_doc_jan8:
  "select legi_doc (marker_sel (todayFormatted jan8)) = []"
  "select legi_doc container_sel \<noteq> []"
  by (simp_all add: todayFormatted_jan8 legi_doc_def doc_defs sel_defs engine_defs)

lemma bare_doc_eval:
  "select bare_doc (marker_sel (todayFormatted jan7)) \<noteq> []"
  "select bare_doc container_sel \<noteq> []"
  "modification_blocks bare_doc = []"
  by (simp_all add: modification_blocks_def todayFormatted_jan7 bare_doc_def doc_defs sel_defs
        engine_defs)

lemma marker_only_doc_eval:
  "select marker_only_doc (marker_sel (todayFormatted jan7)) \<noteq> []"
  "select marker_only_doc container_sel = []"
  by (simp_all add: todayFormatted_jan7 marker_only_doc_def doc_defs sel_defs engine_defs)

lemma parse_three_block_doc: "parseLegiData jan7 three_block_doc = Some three_block_snapshot"
  by (simp add: parse_defs todayFormatted_jan7 three_block_doc_def doc_defs sel_defs engine_defs
        three_block_snapshot_def)

lemma blocks_three_block_doc:
  "map path (modification_blocks three_block_doc) = [[0, 1], [0, 2], [0, 3]]"
  "map path (filter (has_title_link three_block_doc) (modification_blocks three_block_doc))
     = [[0, 1], [0, 3]]"
  "map path (filter (\<lambda>b. \<not> has_title_link three_block_doc b) (modification_blocks three_block_doc))
     = [[0, 2]]"
  by (simp_all add: modification_blocks_def has_title_link_find three_block_doc_def doc_defs
        sel_defs engine_defs)

lemma links_legi_doc:
  "map (\<lambda>item. (path item,
           map (\<lambda>a. (path a, trim (text_sel [a]), DEFAULT_LEGI_URL @ str_of (attr [a] href)))
             (find_sel legi_doc [item] article_sel)))
     (find_sel legi_doc (modification_blocks legi_doc) item_sel)
   = [([0, 1, 2],
       [([0, 1, 2, 0, 0, 0], ascii ''12'', ascii ''https://www.legifrance.gouv.fr/codes/a12''),
        ([0, 1, 2, 0, 1, 0], ascii ''13'', ascii ''https://www.legifrance.gouv.fr/codes/a13'')])]"
  by (simp add: modification_blocks_def legi_doc_def doc_defs sel_defs engine_defs trim_def
        str_of_def DEFAULT_LEGI_URL_def)

text \<open>
  Claim C4. For a reference date of the calendar with a year of four digits, the date
  string that \<open>parseLegiData\<close> looks for is the date written \<open>DD/MM/YYYY\<close>, and
  \<open>parseLegiData\<close> returns \<open>null\<close> exactly when the document has no version marker whose
  \<open>data-date\<close> is that string, or has one but no current-version container. When both
  are there and the container holds no \<open>.content-detail-timeline\<close> block, the result is
  a snapshot whose \<open>modifications\<close> is empty, not \<open>null\<close>.
\<close>

theorem parse_null_iff:
  assumes "valid_date today"
  shows "todayFormatted today = reference_date today
         \<and> (parseLegiData today doc = None
              \<longleftrightarrow> version_markers doc (reference_date today) = []
                  \<or> (version_markers doc (reference_date today) \<noteq> []
                      \<and> current_containers doc = []))
         \<and> (version_markers doc (reference_date today) \<noteq> [] \<and> current_containers doc \<noteq> []
              \<and> container_blocks doc = []
            \<longrightarrow> (\<exists>snap. parseLegiData today doc = Some snap \<and> modifications snap = []))"
proof -
  note f = todayFormatted_reference[OF assms]
  have "parseLegiData today doc = None
      \<longleftrightarrow> version_markers doc (reference_date today) = [] \<or> current_containers doc = []"
    by (simp add: parse_cases select_marker select_container f)
  moreover have "modifications snap = []"
    if "parseLegiData today doc = Some snap" "container_blocks doc = []" for snap
    using parse_modifications_eq[OF that(1)] that(2) by simp
  ultimately show ?thesis using f by (cases "parseLegiData today doc") auto
qed

theorem parse_null_iff_witness:
  "valid_date jan7 \<and> valid_date oct10 \<and> valid_date dec31
   \<and> reference_date jan7 = ascii ''07/01/2026'' \<and> todayFormatted jan7 = ascii ''07/01/2026''
   \<and> reference_date oct10 = ascii ''10/10/2026'' \<and> todayFormatted oct10 = ascii ''10/10/2026''
   \<and> reference_date dec31 = ascii ''31/12/2026'' \<and> todayFormatted dec31 = ascii ''31/12/2026''
   \<and> version_markers bare_doc (reference_date jan7) \<noteq> []
   \<and> current_containers bare_doc \<noteq> []
   \<and> container_blocks bare_doc = []
   \<and> parseLegiData jan7 bare_doc \<noteq> None
   \<and> (\<exists>snap. parseLegiData jan7 bare_doc = Some snap \<and> modifications snap = [])
   \<and> version_markers timeline_one (reference_date jan7) = []
   \<and> parseLegiData jan7 timeline_one = None
   \<and> version_markers marker_only_doc (reference_date jan7) \<noteq> []
   \<and> current_containers marker_only_doc = []
   \<and> parseLegiData jan7 marker_only_doc = None"
proof -
  note v = sample_dates(1,3,4)
  note r = sample_dates(5,7,8)
  have t: "todayFormatted jan7 = ascii ''07/01/2026''"
    "todayFormatted oct10 = ascii ''10/10/2026''"
    "todayFormatted dec31 = ascii ''31/12/2026''"
    using parse_null_iff[OF v(1)] parse_null_iff[OF v(2)] parse_null_iff[OF v(3)]
    by (simp_all only: r)
  have j: "reference_date jan7 = todayFormatted jan7" by (simp only: r t)
  have e: "version_markers bare_doc (reference_date jan7) \<noteq> []"
    "current_containers bare_doc \<noteq> []"
    "container_blocks bare_doc = []"
    "version_markers timeline_one (reference_date jan7) = []"
    "version_markers marker_only_doc (reference_date jan7) \<noteq> []"
    "current_containers marker_only_doc = []"
    using bare_doc_eval timeline_eval(4) marker_only_doc_eval
    by (simp_all only: j select_marker select_container blocks_of_container not_False_eq_True)
  have p: "parseLegiData jan7 bare_doc \<noteq> None"
    "\<exists>snap. parseLegiData jan7 bare_doc = Some snap \<and> modifications snap = []"
    "parseLegiData jan7 timeline_one = None"
    "parseLegiData jan7 marker_only_doc = None"
    using parse_null_iff[OF v(1), of bare_doc] parse_null_iff[OF v(1), of timeline_one]
      parse_null_iff[OF v(1), of marker_only_doc] e
    by blast+
  show ?thesis by (intro conjI v r t e p)
qed

text \<open>
  Claim C5, as the code has it. When \<open>parseLegiData\<close> returns a snapshot, which takes a
  version marker of the reference date besides the current-version container, its
  \<open>modifications\<close> are the objects built from the modification blocks of the first
  container that have a title link, one per block and in the order of the blocks, which
  is document order; their titles are the trimmed texts of the title links. A block
  without a title link is skipped: the number of modifications and the number of blocks
  without a title link add up to the number of blocks, so \<open>N\<close> blocks that all have one
  give \<open>N\<close> modifications.
\<close>

theorem parse_modifications:
  assumes "parseLegiData today doc = Some snap"
  shows "modifications snap
           = map (blockModification doc) (filter (has_title_link doc) (container_blocks doc))
         \<and> map title (modifications snap)
           = map (\<lambda>b. trim (text_sel (title_links doc b)))
               (filter (has_title_link doc) (container_blocks doc))
         \<and> subseq (container_blocks doc) (all_elems doc)
         \<and> length (modifications snap)
             + length (filter (\<lambda>b. \<not> has_title_link doc b) (container_blocks doc))
           = length (container_blocks doc)"
proof -
  have m: "modifications snap
           = map (blockModification doc) (filter (has_title_link doc) (container_blocks doc))"
    using assms by (rule parse_modifications_eq)
  have t: "title (blockModification doc b) = trim (text_sel (title_links doc b))" for b
    by (simp add: blockModification_def Let_def find_title_links)
  have s: "subseq (container_blocks doc) (all_elems doc)"
    by (simp add: blocks_of_container[symmetric] modification_blocks_def subseq_find)
  have l: "length (filter (has_title_link doc) (container_blocks doc))
             + length (filter (\<lambda>b. \<not> has_title_link doc b) (container_blocks doc))
           = length (container_blocks doc)"
    by (rule sum_length_filter_compl)
  show ?thesis using s l by (simp add: m t comp_def)
qed

theorem parse_modifications_witness:
  "parseLegiData jan7 three_block_doc = Some three_block_snapshot
   \<and> map path (container_blocks three_block_doc) = [[0, 1], [0, 2], [0, 3]]
   \<and> map path (filter (has_title_link three_block_doc) (container_blocks three_block_doc))
       = [[0, 1], [0, 3]]
   \<and> modifications three_block_snapshot
       = map (blockModification three_block_doc)
           (filter (has_title_link three_block_doc) (container_blocks three_block_doc))
   \<and> map title (modifications three_block_snapshot) = [ascii ''Decree X'', ascii ''Order Y'']
   \<and> subseq (container_blocks three_block_doc) (all_elems three_block_doc)
   \<and> length (modifications three_block_snapshot)
       + length (filter (\<lambda>b. \<not> has_title_link three_block_doc b)
                   (container_blocks three_block_doc))
      = length (container_blocks three_block_doc)
   \<and> length (modifications three_block_snapshot) = 2"
proof -
  have a: "length (modifications three_block_snapshot) = 2"
    "map title (modifications three_block_snapshot) = [ascii ''Decree X'', ascii ''Order Y'']"
    by (simp_all add: three_block_snapshot_def del: ascii_simps)
  note b = blocks_three_block_doc(1,2)[unfolded blocks_of_container]
  from parse_modifications[OF parse_three_block_doc] parse_three_block_doc a b
  show ?thesis by blast
qed

text \<open>
  The claim as the spec states it, for every document with a current-version container,
  fails: \<open>legi_doc\<close> has the container and a block with a title link, but no version
  marker of 8 January 2026, and \<open>parseLegiData\<close> returns \<open>null\<close> for that date.
\<close>

theorem parse_modifications_counterexample:
  "current_containers legi_doc \<noteq> []
   \<and> map path (filter (has_title_link legi_doc) (container_blocks legi_doc)) = [[0, 1]]
   \<and> reference_date jan8 = ascii ''08/01/2026''
   \<and> version_markers legi_doc (reference_date jan8) = []
   \<and> parseLegiData jan8 legi_doc = None"
proof -
  have j: "reference_date jan8 = todayFormatted jan8"
    by (simp only: todayFormatted_reference[OF sample_dates(2)])
  have "version_markers legi_doc (reference_date jan8) = []" "current_containers legi_doc \<noteq> []"
    using legi_doc_jan8 by (simp_all only: j select_marker select_container not_False_eq_True)
  moreover have "parseLegiData jan8 legi_doc = None"
    using legi_doc_jan8(1) by (simp add: parse_cases)
  ultimately show ?thesis
    using blocks_legi_doc(2)[unfolded blocks_of_container] sample_dates(6) by blast
qed

text \<open>When every block has a title link, there are as many modifications as blocks.\<close>

lemma parse_all_well_formed:
  assumes "parseLegiData today doc = Some snap"
      and "list_all (has_title_link doc) (container_blocks doc)"
  shows "modifications snap = map (blockModification doc) (container_blocks doc)"
    and "length (modifications snap) = length (container_blocks doc)"
proof -
  have "filter (has_title_link doc) (container_blocks doc) = container_blocks doc"
    using assms(2) by (simp add: list_all_iff)
  with parse_modifications_eq[OF assms(1)]
  show "modifications snap = map (blockModification doc) (container_blocks doc)" by simp
  then show "length (modifications snap) = length (container_blocks doc)" by simp
qed

text \<open>
  Claim C9. Every article group of every modification of a snapshot returned by
  \<open>parseLegiData\<close> comes from a \<open>.list-item\<close> of a modification block of the container, and
  its \<open>articleNumbers\<close> and \<open>articleUrls\<close> are both read off the article links of that
  item, in their order: the \<open>i\<close>-th number is the trimmed text of the \<open>i\<close>-th link and the
  \<open>i\<close>-th url is \<open>DEFAULT_LEGI_URL\<close> followed by the \<open>href\<close> of the same link. So the two
  have the same length and are aligned.
\<close>

theorem article_groups_aligned:
  assumes "parseLegiData today doc = Some snap"
      and "m \<in> set (modifications snap)" and "g \<in> set (articles m)"
  shows "length (articleNumbers g) = length (articleUrls g)
         \<and> (\<exists>b item. b \<in> set (container_blocks doc) \<and> m = blockModification doc b
              \<and> item \<in> set (find_sel doc [b] item_sel) \<and> g = itemArticle doc item
              \<and> articleNumbers g
                  = map (\<lambda>a. trim (text_sel [a])) (find_sel doc [item] article_sel)
              \<and> articleUrls g
                  = map (\<lambda>a. DEFAULT_LEGI_URL @ str_of (attr [a] href))
                      (find_sel doc [item] article_sel))"
proof -
  from parse_modifications_eq[OF assms(1)] assms(2)
  obtain b where b: "b \<in> set (container_blocks doc)" and m: "m = blockModification doc b"
    by auto
  have "articles (blockModification doc b) = map (itemArticle doc) (find_sel doc [b] item_sel)"
    by (simp add: blockModification_def Let_def foldl_eachItem)
  with assms(3) m obtain item where i: "item \<in> set (find_sel doc [b] item_sel)"
    and g: "g = itemArticle doc item" by auto
  have n: "articleNumbers g = map (\<lambda>a. trim (text_sel [a])) (find_sel doc [item] article_sel)"
    and u: "articleUrls g = map (\<lambda>a. DEFAULT_LEGI_URL @ str_of (attr [a] href))
                               (find_sel doc [item] article_sel)"
    by (simp_all add: g itemArticle_fields)
  have "length (articleNumbers g) = length (articleUrls g)" by (simp add: n u)
  with b m i g n u show ?thesis by blast
qed

theorem article_groups_aligned_witness:
  "parseLegiData jan7 legi_doc = Some legi_snapshot
   \<and> legi_modif \<in> set (modifications legi_snapshot)
   \<and> legi_group \<in> set (articles legi_modif)
   \<and> map (\<lambda>item. (path item,
           map (\<lambda>a. (path a, trim (text_sel [a]), DEFAULT_LEGI_URL @ str_of (attr [a] href)))
             (find_sel legi_doc [item] article_sel)))
       (find_sel legi_doc (modification_blocks legi_doc) item_sel)
      = [([0, 1, 2],
          [([0, 1, 2, 0, 0, 0], ascii ''12'', ascii ''https://www.legifrance.gouv.fr/codes/a12''),
           ([0, 1, 2, 0, 1, 0], ascii ''13'', ascii ''https://www.legifrance.gouv.fr/codes/a13'')])]
   \<and> articleNumbers legi_group = [ascii ''12'', ascii ''13'']
   \<and> articleUrls legi_group = [ascii ''https://www.legifrance.gouv.fr/codes/a12'',
                                ascii ''https://www.legifrance.gouv.fr/codes/a13'']
   \<and> length (articleNumbers legi_group) = length (articleUrls legi_group)"
proof -
  have a: "legi_modif \<in> set (modifications legi_snapshot)" by (simp add: legi_snapshot_def)
  have b: "legi_group \<in> set (articles legi_modif)" by (simp add: legi_modif_def)
  have c: "articleNumbers legi_group = [ascii ''12'', ascii ''13'']"
    "articleUrls legi_group = [ascii ''https://www.legifrance.gouv.fr/codes/a12'',
                                ascii ''https://www.legifrance.gouv.fr/codes/a13'']"
    by (simp_all add: legi_group_def del: ascii_simps)
  from article_groups_aligned[OF parse_legi_doc a b] have
    "length (articleNumbers legi_group) = length (articleUrls legi_group)" by blast
  with parse_legi_doc a b c links_legi_doc show ?thesis by (intro conjI)
qed

text \<open>
  An article group without a section link: \<open>.text()\<close> of the empty selection is the empty
  string, \<open>.attr("href")\<close> is \<open>undefined\<close>, and the concatenation writes it out.
\<close>

lemma no_section_link:
  assumes "find_sel doc [item] section_sel = []"
  shows "sectionName (itemArticle doc item) = []"
    and "sectionUrl (itemArticle doc item) = DEFAULT_LEGI_URL @ ascii ''undefined''"
  using assms
  by (simp_all add: itemArticle_fields text_sel_def trim_def attr_def str_of_def del: ascii_simps)

lemma items_legi_doc:
  "map (\<lambda>item. (path item, find_sel legi_doc [item] section_sel))
     (find_sel legi_doc (modification_blocks legi_doc) item_sel) = [([0, 1, 2], [])]"
  by (simp add: modification_blocks_def legi_doc_def doc_defs sel_defs engine_defs)

text \<open>
  Claim C3. The claim asks for an empty \<open>sectionName\<close> and an empty \<open>sectionUrl\<close> when the
  article-group item has no link whose \<open>href\<close> contains \<open>section_lc\<close>. The code gives the
  empty \<open>sectionName\<close>, but not the empty \<open>sectionUrl\<close>: in \<open>legi_doc\<close> the only
  \<open>.list-item\<close> (at path 0, 1, 2) has no such link, and the article group parsed from it
  has the \<open>sectionUrl\<close> \<open>https://www.legifrance.gouv.fr/undefined\<close>.
\<close>

theorem section_url_without_link:
  "map (\<lambda>item. (path item, find_sel legi_doc [item] section_sel))
     (find_sel legi_doc (modification_blocks legi_doc) item_sel) = [([0, 1, 2], [])]
   \<and> parseLegiData jan7 legi_doc = Some legi_snapshot
   \<and> modifications legi_snapshot = [legi_modif]
   \<and> articles legi_modif = [legi_group]
   \<and> sectionName legi_group = []
   \<and> sectionUrl legi_group = ascii ''https://www.legifrance.gouv.fr/undefined''
   \<and> sectionUrl legi_group \<noteq> []"
  using items_legi_doc parse_legi_doc
  by (simp add: legi_snapshot_def legi_modif_def legi_group_def)

end
